theory Spec2Isabelle
  imports Main "HOL-Library.Sublist"
begin

section \<open>Signatures and their specificity order\<close>

text \<open>
  The types of the host language are an opaque universe \<open>'ty\<close>. Python's built-in
  \<open>issubclass\<close> is a parameter \<open>issubclass :: 'ty \<Rightarrow> 'ty \<Rightarrow> bool\<close> of every operation that
  consults it, and the class \<open>object\<close> is a parameter of the operations that name it.
  A \<open>Signature\<close> is a tuple of types.
\<close>

type_synonym 'ty Signature = "'ty list"

text \<open>
  \<^verbatim>\<open>def supercedes(self, other): return all(map(issubclass, self, other))\<close>

  \<open>map\<close> over two tuples stops at the end of the shorter one, as \<open>zip\<close> does.
\<close>

definition supercedes :: "('ty \<Rightarrow> 'ty \<Rightarrow> bool) \<Rightarrow> 'ty Signature \<Rightarrow> 'ty Signature \<Rightarrow> bool" where
  "supercedes issubclass self other = list_all (\<lambda>(a, b). issubclass a b) (zip self other)"

text \<open>\<open>Signature.__lt__\<close>: the arity guard, then strict specificity.\<close>

definition Signature_lt :: "('ty \<Rightarrow> 'ty \<Rightarrow> bool) \<Rightarrow> 'ty Signature \<Rightarrow> 'ty Signature \<Rightarrow> bool" where
  "Signature_lt issubclass self other =
     (if length self \<noteq> length other then False
      else supercedes issubclass self other \<and> \<not> supercedes issubclass other self)"

text \<open>\<open>Signature.__eq__\<close>: the arity guard, then pointwise equality of the types.\<close>

definition Signature_eq :: "'ty Signature \<Rightarrow> 'ty Signature \<Rightarrow> bool" where
  "Signature_eq self other =
     (if length self \<noteq> length other then False
      else list_all (\<lambda>(a, b). a = b) (zip self other))"

section \<open>Union expansion\<close>

text \<open>
  A parameter annotation as \<open>unpack_signatures\<close> sees it: a class; a \<open>typing.Union\<close>
  (\<open>UnionOf\<close>), of which \<open>get_args\<close> gives the members in declared order; or an object
  that is not a type (a generic alias, a string, ...), given by its \<open>repr\<close>. The members
  of a union are classes here: \<open>unpack_signatures\<close> puts them into the signatures without
  looking at them. A parameter of a function carries no hint (\<open>None\<close>), the hint \<open>Any\<close>,
  or an annotation. What \<open>register\<close> is given is any callable: its name, its truth
  value (a function made by \<open>def\<close> is true; a callable object or class with a \<open>__bool__\<close>
  or \<open>__len__\<close> can be false) and the hints of its parameters, in the order of
  \<open>inspect.signature(fn).parameters\<close>.
\<close>

datatype 'ty annotation = Class 'ty | UnionOf "'ty list" | NonType string

datatype 'ty hint = Any | Hint "'ty annotation"

record 'ty pyfunction =
  fn_name :: string
  fn_truthy :: bool
  fn_params :: "'ty hint option list"

text \<open>
  Every failure of the source is a Python \<open>TypeError\<close>; the constructors keep the four
  places that raise apart: the non-type annotation of \<open>unpack_signatures\<close>, its call
  without the required positional argument \<open>tp\<close>, the conflict of \<open>register\<close> and the
  failed resolution of \<open>__call__\<close>.
\<close>

datatype 'ty error =
    NonTypeAnnotation "'ty annotation"
  | MissingArgument
  | MultipleDefinitions "'ty pyfunction" "'ty pyfunction"
  | NoImplementations "'ty list"

text \<open>The first statement of \<open>unpack_signatures\<close>: the list \<open>types\<close> of one annotation.\<close>

definition types_of :: "'ty annotation \<Rightarrow> 'ty error + 'ty list" where
  "types_of tp =
     (case tp of
        UnionOf ts \<Rightarrow> Inr ts
      | NonType r \<Rightarrow> Inl (NonTypeAnnotation tp)
      | Class c \<Rightarrow> Inr [c])"

text \<open>
  \<open>unpack_signatures(tp, *args)\<close>, consumed to the end as \<open>list(...)\<close> does. The
  generator validates \<open>tp\<close> first; the recursive generator over \<open>args\<close> is only started
  inside the loop over \<open>types\<close>, so it is never run when \<open>types\<close> is empty.
\<close>

fun unpack_signatures :: "'ty annotation \<Rightarrow> 'ty annotation list \<Rightarrow> 'ty error + 'ty Signature list" where
  "unpack_signatures tp [] =
     (case types_of tp of
        Inl e \<Rightarrow> Inl e
      | Inr types \<Rightarrow> Inr (map (\<lambda>t. [t]) types))"
| "unpack_signatures tp (a # rest) =
     (case types_of tp of
        Inl e \<Rightarrow> Inl e
      | Inr types \<Rightarrow>
          (if types = [] then Inr []
           else (case unpack_signatures a rest of
                   Inl e \<Rightarrow> Inl e
                 | Inr sigs \<Rightarrow> Inr (concat (map (\<lambda>t. map (\<lambda>sig. t # sig) sigs) types)))))"

text \<open>
  The call \<open>unpack_signatures(*param_types)\<close>: with no parameter at all the required
  argument \<open>tp\<close> is missing and Python raises at the call.
\<close>

definition unpack_signatures_star :: "'ty annotation list \<Rightarrow> 'ty error + 'ty Signature list" where
  "unpack_signatures_star param_types =
     (case param_types of
        [] \<Rightarrow> Inl MissingArgument
      | tp # args \<Rightarrow> unpack_signatures tp args)"

text \<open>
  The loop body of \<open>get_signatures\<close>: \<open>type_hints.get(param, object)\<close>, then \<open>Any\<close>
  replaced by \<open>object\<close>.
\<close>

definition param_type :: "'ty \<Rightarrow> 'ty hint option \<Rightarrow> 'ty annotation" where
  "param_type object param =
     (case param of
        None \<Rightarrow> Class object
      | Some Any \<Rightarrow> Class object
      | Some (Hint tp) \<Rightarrow> tp)"

definition get_signatures :: "'ty \<Rightarrow> 'ty pyfunction \<Rightarrow> 'ty error + 'ty Signature list" where
  "get_signatures object fn = unpack_signatures_star (map (param_type object) (fn_params fn))"

section \<open>The dispatch table\<close>

text \<open>
  \<open>signature_map\<close> is a Python \<open>dict\<close>: its items in insertion order, with keys that are
  pairwise unequal under \<open>Signature.__eq__\<close>. The three dictionary operations the source
  uses are \<open>get\<close>, \<open>items\<close> (the list itself) and the constructor \<open>dict(items)\<close>, which
  stores the items one by one: a key already present keeps its place and takes the new
  value.
\<close>

type_synonym 'ty items = "('ty Signature \<times> 'ty pyfunction) list"

fun dict_get :: "'ty items \<Rightarrow> 'ty Signature \<Rightarrow> 'ty pyfunction option" where
  "dict_get [] k = None"
| "dict_get ((k', v) # d) k = (if Signature_eq k' k then Some v else dict_get d k)"

fun dict_setitem :: "'ty items \<Rightarrow> 'ty Signature \<Rightarrow> 'ty pyfunction \<Rightarrow> 'ty items" where
  "dict_setitem [] k v = [(k, v)]"
| "dict_setitem ((k', v') # d) k v =
     (if Signature_eq k' k then (k', v) # d else (k', v') # dict_setitem d k v)"

definition dict_of :: "'ty items \<Rightarrow> 'ty items" where
  "dict_of its = foldl (\<lambda>d (k, v). dict_setitem d k v) [] its"

record 'ty multipledispatch =
  signature_map :: "'ty items"

text \<open>
  \<open>__call__\<close>, on the runtime types of the arguments: \<open>isinstance(a, t)\<close> is
  \<open>issubclass(type(a), t)\<close>. The loop skips an entry of another arity and returns the
  function of the first entry that accepts every argument; the function itself is
  returned instead of being invoked.
\<close>

fun call_loop :: "('ty \<Rightarrow> 'ty \<Rightarrow> bool) \<Rightarrow> 'ty items \<Rightarrow> 'ty list \<Rightarrow> 'ty pyfunction option" where
  "call_loop issubclass [] args = None"
| "call_loop issubclass ((signature, fn) # rest) args =
     (if length signature \<noteq> length args then call_loop issubclass rest args
      else if list_all (\<lambda>(a, t). issubclass a t) (zip args signature) then Some fn
      else call_loop issubclass rest args)"

definition call :: "('ty \<Rightarrow> 'ty \<Rightarrow> bool) \<Rightarrow> 'ty multipledispatch \<Rightarrow> 'ty list
    \<Rightarrow> ('ty error + 'ty pyfunction) \<times> 'ty multipledispatch" where
  "call issubclass self args =
     (case call_loop issubclass (signature_map self) args of
        Some fn \<Rightarrow> (Inr fn, self)
      | None \<Rightarrow> (Inl (NoImplementations args), self))"

text \<open>
  The inner \<open>for ... else\<close> of \<open>_add_items\<close>: the new item goes before the first item
  whose signature it is strictly less than, or to the end.
\<close>

fun insert_item :: "('ty \<Rightarrow> 'ty \<Rightarrow> bool) \<Rightarrow> 'ty Signature \<times> 'ty pyfunction \<Rightarrow> 'ty items \<Rightarrow> 'ty items" where
  "insert_item issubclass new [] = [new]"
| "insert_item issubclass new (item # its) =
     (if Signature_lt issubclass (fst new) (fst item) then new # item # its
      else item # insert_item issubclass new its)"

definition add_items :: "('ty \<Rightarrow> 'ty \<Rightarrow> bool) \<Rightarrow> 'ty multipledispatch \<Rightarrow> 'ty items \<Rightarrow> 'ty multipledispatch" where
  "add_items issubclass self new_items =
     self\<lparr>signature_map :=
       dict_of (foldl (\<lambda>its new. insert_item issubclass new its) (signature_map self) new_items)\<rparr>"

text \<open>
  The conflict loop of \<open>register\<close>, \<open>if registered := self.signature_map.get(signature)\<close>:
  the test is the truth value of what \<open>get\<close> returns, so the loop stops at the first
  signature of the batch under which the table holds a callable that is true, and passes
  over a signature that is missing (\<open>get\<close> gives \<open>None\<close>) or held by a callable that is
  false. \<open>register\<close> then hands the batch to \<open>_add_items\<close>, whose last statement is the
  only assignment of \<open>signature_map\<close>; its \<open>return self\<close> is the \<open>Inr ()\<close> beside the
  updated dispatcher.
\<close>

fun find_registered :: "'ty items \<Rightarrow> 'ty Signature list \<Rightarrow> 'ty pyfunction option" where
  "find_registered d [] = None"
| "find_registered d (signature # rest) =
     (case dict_get d signature of
        Some registered \<Rightarrow>
          (if fn_truthy registered then Some registered else find_registered d rest)
      | None \<Rightarrow> find_registered d rest)"

definition register :: "('ty \<Rightarrow> 'ty \<Rightarrow> bool) \<Rightarrow> 'ty \<Rightarrow> 'ty multipledispatch \<Rightarrow> 'ty pyfunction
    \<Rightarrow> ('ty error + unit) \<times> 'ty multipledispatch" where
  "register issubclass object self fn =
     (case get_signatures object fn of
        Inl e \<Rightarrow> (Inl e, self)
      | Inr signatures \<Rightarrow>
          (case find_registered (signature_map self) signatures of
             Some registered \<Rightarrow> (Inl (MultipleDefinitions registered fn), self)
           | None \<Rightarrow>
               (Inr (), add_items issubclass self (map (\<lambda>signature. (signature, fn)) signatures))))"

text \<open>
  \<open>__init__\<close>: a new dispatcher reads the class attribute \<open>signature_map = dict()\<close> and
  registers its first function; when that raises, no dispatcher exists.
\<close>

definition new_dispatch :: "'ty multipledispatch" where
  "new_dispatch = \<lparr>signature_map = []\<rparr>"

definition init :: "('ty \<Rightarrow> 'ty \<Rightarrow> bool) \<Rightarrow> 'ty \<Rightarrow> 'ty pyfunction \<Rightarrow> 'ty error + 'ty multipledispatch" where
  "init issubclass object fn =
     (case register issubclass object new_dispatch fn of
        (Inl e, _) \<Rightarrow> Inl e
      | (Inr _, self) \<Rightarrow> Inr self)"

text \<open>
  A history of a dispatcher: registrations one after the other. A registration that
  raises leaves the dispatcher as it was, and the caller may go on.
\<close>

fun register_all :: "('ty \<Rightarrow> 'ty \<Rightarrow> bool) \<Rightarrow> 'ty \<Rightarrow> 'ty multipledispatch \<Rightarrow> 'ty pyfunction list
    \<Rightarrow> 'ty multipledispatch" where
  "register_all issubclass object self [] = self"
| "register_all issubclass object self (fn # fns) =
     register_all issubclass object (snd (register issubclass object self fn)) fns"

section \<open>A concrete class hierarchy\<close>

text \<open>Four built-in classes of Python: \<open>bool\<close> derives from \<open>int\<close>, everything from \<open>object\<close>.\<close>

datatype pyclass = PyObject | PyInt | PyBool | PyStr

fun issubclass_py :: "pyclass \<Rightarrow> pyclass \<Rightarrow> bool" where
  "issubclass_py c PyObject = True"
| "issubclass_py PyBool PyInt = True"
| "issubclass_py c d = (c = d)"

section \<open>A hierarchy with abstract base classes\<close>

text \<open>
  \<open>issubclass\<close> on \<open>object\<close>, \<open>list\<close> and the abstract base classes \<open>Sequence\<close> and
  \<open>Hashable\<close> of \<open>collections.abc\<close>, all of them classes that \<open>unpack_signatures\<close> accepts:
  \<open>list\<close> is registered as a \<open>Sequence\<close>; \<open>Hashable\<close> holds every class with a \<open>__hash__\<close>
  method, which \<open>object\<close> and \<open>Sequence\<close> have and \<open>list\<close> has not. So \<open>list\<close> is a
  subclass of \<open>Sequence\<close> and \<open>Sequence\<close> one of \<open>Hashable\<close>, but \<open>list\<close> is none of
  \<open>Hashable\<close>: Python's \<open>issubclass\<close> is not transitive.
\<close>

datatype abcclass = AbcObject | AbcList | AbcSequence | AbcHashable

fun issubclass_abc :: "abcclass \<Rightarrow> abcclass \<Rightarrow> bool" where
  "issubclass_abc c AbcObject = True"
| "issubclass_abc AbcObject AbcHashable = True"
| "issubclass_abc AbcSequence AbcHashable = True"
| "issubclass_abc AbcList AbcSequence = True"
| "issubclass_abc c d = (c = d)"

text \<open>Three functions of one parameter, and the tables of their registration in this order.\<close>

definition foo_hashable :: "abcclass pyfunction" where
  "foo_hashable = \<lparr>fn_name = ''foo(a: Hashable)'', fn_truthy = True, fn_params = [Some (Hint (Class AbcHashable))]\<rparr>"

definition foo_list :: "abcclass pyfunction" where
  "foo_list = \<lparr>fn_name = ''foo(a: list)'', fn_truthy = True, fn_params = [Some (Hint (Class AbcList))]\<rparr>"

definition foo_sequence :: "abcclass pyfunction" where
  "foo_sequence = \<lparr>fn_name = ''foo(a: Sequence)'', fn_truthy = True, fn_params = [Some (Hint (Class AbcSequence))]\<rparr>"

definition abc1 :: "abcclass multipledispatch" where
  "abc1 = \<lparr>signature_map = [([AbcHashable], foo_hashable)]\<rparr>"

definition abc2 :: "abcclass multipledispatch" where
  "abc2 = \<lparr>signature_map = [([AbcHashable], foo_hashable), ([AbcList], foo_list)]\<rparr>"

definition abc3 :: "abcclass multipledispatch" where
  "abc3 = \<lparr>signature_map =
     [([AbcSequence], foo_sequence), ([AbcHashable], foo_hashable), ([AbcList], foo_list)]\<rparr>"

section \<open>Parameter specifications\<close>

text \<open>
  The types a parameter specification stands for, in declared order: the members of a
  union, the type itself for a single type. A specification is well formed when it is
  a type or a union whose members are pairwise different, as the members of a
  \<open>typing.Union\<close> are.
\<close>

definition union_members :: "'ty annotation \<Rightarrow> 'ty list" where
  "union_members a = (case a of Class c \<Rightarrow> [c] | UnionOf ts \<Rightarrow> ts | NonType r \<Rightarrow> [])"

definition wf_spec :: "'ty annotation \<Rightarrow> bool" where
  "wf_spec a = (case a of Class c \<Rightarrow> True | UnionOf ts \<Rightarrow> distinct ts | NonType r \<Rightarrow> False)"

section \<open>The example of the class docstring\<close>

text \<open>
  The four functions of the docstring of \<open>multipledispatch\<close>, and the tables their
  registration goes through.
\<close>

definition foo_object_object :: "pyclass pyfunction" where
  "foo_object_object =
     \<lparr>fn_name = ''foo(a: object, b: object)'', fn_truthy = True,
      fn_params = [Some (Hint (Class PyObject)), Some (Hint (Class PyObject))]\<rparr>"

definition foo_str_int :: "pyclass pyfunction" where
  "foo_str_int =
     \<lparr>fn_name = ''foo(a: str, b: int)'', fn_truthy = True,
      fn_params = [Some (Hint (Class PyStr)), Some (Hint (Class PyInt))]\<rparr>"

definition foo_str_str :: "pyclass pyfunction" where
  "foo_str_str =
     \<lparr>fn_name = ''foo(a: str, b: str)'', fn_truthy = True,
      fn_params = [Some (Hint (Class PyStr)), Some (Hint (Class PyStr))]\<rparr>"

definition foo_int_union :: "pyclass pyfunction" where
  "foo_int_union =
     \<lparr>fn_name = ''foo(a: int, b: Union[int, str])'', fn_truthy = True,
      fn_params = [Some (Hint (Class PyInt)), Some (Hint (UnionOf [PyInt, PyStr]))]\<rparr>"

definition table1 :: "pyclass multipledispatch" where
  "table1 = \<lparr>signature_map = [([PyObject, PyObject], foo_object_object)]\<rparr>"

definition table2 :: "pyclass multipledispatch" where
  "table2 = \<lparr>signature_map =
     [([PyStr, PyInt], foo_str_int), ([PyObject, PyObject], foo_object_object)]\<rparr>"

definition table3 :: "pyclass multipledispatch" where
  "table3 = \<lparr>signature_map =
     [([PyStr, PyInt], foo_str_int), ([PyStr, PyStr], foo_str_str),
      ([PyObject, PyObject], foo_object_object)]\<rparr>"

definition table4 :: "pyclass multipledispatch" where
  "table4 = \<lparr>signature_map =
     [([PyStr, PyInt], foo_str_int), ([PyStr, PyStr], foo_str_str),
      ([PyInt, PyInt], foo_int_union), ([PyInt, PyStr], foo_int_union),
      ([PyObject, PyObject], foo_object_object)]\<rparr>"

text \<open>A fifth function, whose expansion \<open>(bool, int)\<close>, \<open>(str, int)\<close> meets the table in \<open>(str, int)\<close>.\<close>

definition foo_bool_or_str_int :: "pyclass pyfunction" where
  "foo_bool_or_str_int =
     \<lparr>fn_name = ''foo(a: Union[bool, str], b: int)'', fn_truthy = True,
      fn_params = [Some (Hint (UnionOf [PyBool, PyStr])), Some (Hint (Class PyInt))]\<rparr>"

section \<open>What resolution looks for\<close>

text \<open>
  A signature matches the runtime types of a call when it has their arity and each of
  its types is the runtime type at that position or one of its superclasses.
\<close>

definition matches :: "('ty \<Rightarrow> 'ty \<Rightarrow> bool) \<Rightarrow> 'ty list \<Rightarrow> 'ty Signature \<Rightarrow> bool" where
  "matches issubclass argTypes sig =
     (length sig = length argTypes \<and> (\<forall>i < length sig. issubclass (argTypes ! i) (sig ! i)))"

text \<open>Every callable the table holds is true, as every function made by \<open>def\<close> is.\<close>

definition all_truthy :: "'ty items \<Rightarrow> bool" where
  "all_truthy its = list_all (\<lambda>item. fn_truthy (snd item)) its"

text \<open>
  A callable that is false (a class of one unannotated parameter whose metaclass gives it
  the length 0, say), the table of a dispatcher built from it, a function of the same
  signature, and the table after that function is registered.
\<close>

definition empty_handler :: "pyclass pyfunction" where
  "empty_handler = \<lparr>fn_name = ''Handler(a)'', fn_truthy = False, fn_params = [None]\<rparr>"

definition foo_any :: "pyclass pyfunction" where
  "foo_any = \<lparr>fn_name = ''foo(a)'', fn_truthy = True, fn_params = [None]\<rparr>"

definition handler1 :: "pyclass multipledispatch" where
  "handler1 = \<lparr>signature_map = [([PyObject], empty_handler)]\<rparr>"

definition handler2 :: "pyclass multipledispatch" where
  "handler2 = \<lparr>signature_map = [([PyObject], foo_any)]\<rparr>"

text \<open>The keys of the table, in their stored order (\<open>signature_map.keys()\<close>).\<close>

definition table_keys :: "'ty multipledispatch \<Rightarrow> 'ty Signature list" where
  "table_keys self = map fst (signature_map self)"

text \<open>A function without parameters, and one with an unannotated and an \<open>Any\<close> parameter.\<close>

definition foo_nullary :: "pyclass pyfunction" where
  "foo_nullary = \<lparr>fn_name = ''foo()'', fn_truthy = True, fn_params = []\<rparr>"


section \<open>The order of two entries\<close>











section \<open>Properties\<close>

subsection \<open>The specificity order\<close>

lemma Signature_eq_iff: "Signature_eq a b \<longleftrightarrow> a = b"
  by (auto simp: Signature_eq_def list_all_length list_eq_iff_nth_eq)

lemma supercedes_nth:
  "supercedes issubclass A B = (\<forall>i < min (length A) (length B). issubclass (A ! i) (B ! i))"
  by (simp add: supercedes_def list_all_length)

lemma supercedes_list_all2:
  "length A = length B \<Longrightarrow> supercedes issubclass A B = list_all2 issubclass A B"
  by (auto simp: supercedes_def list_all2_iff list_all_iff)

lemma Signature_lt_length: "Signature_lt issubclass A B \<Longrightarrow> length A = length B"
  by (simp add: Signature_lt_def split: if_splits)

lemma Signature_lt_irrefl: "\<not> Signature_lt issubclass A A"
  by (simp add: Signature_lt_def)

lemma Signature_lt_asym: "Signature_lt issubclass A B \<Longrightarrow> \<not> Signature_lt issubclass B A"
  by (simp add: Signature_lt_def split: if_splits)

lemma supercedes_trans:
  assumes "transp issubclass" "length A = length B" "length B = length C"
    "supercedes issubclass A B" "supercedes issubclass B C"
  shows "supercedes issubclass A C"
proof -
  have "issubclass (A ! i) (C ! i)" if "i < length A" for i
  proof -
    have "issubclass (A ! i) (B ! i)" "issubclass (B ! i) (C ! i)"
      using assms that by (simp_all add: supercedes_nth)
    then show ?thesis using assms(1) by (blast dest: transpD)
  qed
  then show ?thesis using assms by (simp add: supercedes_nth)
qed

lemma Signature_lt_trans:
  assumes tr: "transp issubclass"
    and ab: "Signature_lt issubclass A B" and bc: "Signature_lt issubclass B C"
  shows "Signature_lt issubclass A C"
proof -
  have lab: "length A = length B" and lbc: "length B = length C"
    using ab bc by (auto dest: Signature_lt_length)
  have sab: "supercedes issubclass A B" and sbc: "supercedes issubclass B C"
    and nba: "\<not> supercedes issubclass B A"
    using ab bc lab lbc by (simp_all add: Signature_lt_def)
  have sac: "supercedes issubclass A C"
    using supercedes_trans[OF tr lab lbc sab sbc] .
  have "\<not> supercedes issubclass C A"
  proof
    assume "supercedes issubclass C A"
    with sbc have "supercedes issubclass B A"
      using supercedes_trans[OF tr lbc _ sbc, of A] lab lbc by simp
    with nba show False by simp
  qed
  with sac lab lbc show ?thesis by (simp add: Signature_lt_def)
qed

lemma transp_issubclass_py: "transp issubclass_py"
proof (rule transpI)
  fix x y z assume "issubclass_py x y" "issubclass_py y z"
  then show "issubclass_py x z"
    by (cases x; cases y; cases z) simp_all
qed

text \<open>
  Claim C4, as stated, makes \<open>Signature.__lt__\<close> transitive on all signatures. It
  inherits the transitivity of \<open>issubclass\<close> and nothing more: \<open>(list,) < (Sequence,)\<close> and
  \<open>(Sequence,) < (Hashable,)\<close>, but \<open>(list,)\<close> is not less than \<open>(Hashable,)\<close>.
\<close>

theorem Signature_lt_not_transitive_counterexample:
  "Signature_lt issubclass_abc [AbcList] [AbcSequence]
   \<and> Signature_lt issubclass_abc [AbcSequence] [AbcHashable]
   \<and> \<not> Signature_lt issubclass_abc [AbcList] [AbcHashable]"
  by (simp add: Signature_lt_def supercedes_def)

text \<open>
  Claim C4, amended. For every \<open>issubclass\<close>, no signature is less than itself and no
  two signatures are each less than the other. Where the host's \<open>issubclass\<close> is
  transitive, a chain \<open>A < B < C\<close> gives \<open>A < C\<close>, and \<open>Signature.__lt__\<close> is a strict
  partial order.
\<close>

theorem Signature_lt_strict_partial_order:
  "\<not> Signature_lt issubclass A A
   \<and> \<not> (Signature_lt issubclass A B \<and> Signature_lt issubclass B A)
   \<and> (transp issubclass \<longrightarrow> Signature_lt issubclass A B \<longrightarrow> Signature_lt issubclass B C
        \<longrightarrow> Signature_lt issubclass A C)"
  using Signature_lt_irrefl Signature_lt_asym Signature_lt_trans by blast

theorem Signature_lt_strict_partial_order_witness:
  "transp issubclass_py
   \<and> Signature_lt issubclass_py [PyBool, PyStr] [PyInt, PyStr]
   \<and> Signature_lt issubclass_py [PyInt, PyStr] [PyObject, PyStr]
   \<and> Signature_lt issubclass_py [PyBool, PyStr] [PyObject, PyStr]
   \<and> \<not> Signature_lt issubclass_py [PyInt, PyStr] [PyBool, PyStr]
   \<and> \<not> Signature_lt issubclass_py [PyBool, PyStr] [PyBool, PyStr]"
  using Signature_lt_strict_partial_order
          [of issubclass_py "[PyBool, PyStr]" "[PyInt, PyStr]" "[PyObject, PyStr]"]
        transp_issubclass_py
  by (simp add: Signature_lt_def supercedes_def)

text \<open>
  Claim C6, as stated, asks \<open>supercedes\<close> to be false whenever the arities differ.
  \<open>supercedes\<close> has no arity guard: \<open>map\<close> stops at the shorter tuple, so \<open>(int,)\<close>
  supercedes \<open>(int, str)\<close>.
\<close>

theorem supercedes_arity_counterexample:
  "length [PyInt] \<noteq> length [PyInt, PyStr] \<and> supercedes issubclass_py [PyInt] [PyInt, PyStr]"
  by (simp add: supercedes_def)

text \<open>
  Claim C6, amended. \<open>supercedes(A, B)\<close> is total (it never raises) and compares the
  positions both signatures have: it holds iff every type of \<open>A\<close> among the first
  \<open>min (len A) (len B)\<close> positions is a subclass of the type of \<open>B\<close> there. For equal
  arities that is every position. The arity guard is the one of \<open>__lt__\<close>, the only caller:
  signatures of different arities are never strictly ordered.
\<close>

theorem supercedes_common_prefix:
  "supercedes issubclass A B = (\<forall>i < min (length A) (length B). issubclass (A ! i) (B ! i))
   \<and> (length A = length B \<longrightarrow>
        supercedes issubclass A B = (\<forall>i < length A. issubclass (A ! i) (B ! i)))
   \<and> (length A \<noteq> length B \<longrightarrow> \<not> Signature_lt issubclass A B)"
  by (simp add: supercedes_nth Signature_lt_def)

theorem supercedes_common_prefix_witness:
  "supercedes issubclass_py [PyBool, PyStr] [PyInt, PyStr]
   \<and> \<not> supercedes issubclass_py [PyInt, PyStr] [PyBool, PyStr]
   \<and> supercedes issubclass_py [PyBool] [PyInt, PyStr]
   \<and> \<not> Signature_lt issubclass_py [PyBool] [PyInt, PyStr]"
  using supercedes_common_prefix [of issubclass_py "[PyBool, PyStr]" "[PyInt, PyStr]"]
        supercedes_common_prefix [of issubclass_py "[PyBool]" "[PyInt, PyStr]"]
  by (simp add: supercedes_def)

subsection \<open>Union expansion is the Cartesian product\<close>

lemma types_of_wf: "wf_spec a \<Longrightarrow> types_of a = Inr (union_members a)"
  by (cases a) (simp_all add: wf_spec_def types_of_def union_members_def)

lemma concat_map_singleton: "concat (map (\<lambda>t. [f t]) ts) = map f ts"
  by (induction ts) simp_all

lemma unpack_signatures_product:
  "\<forall>a \<in> set (tp # args). wf_spec a \<Longrightarrow>
   unpack_signatures tp args = Inr (product_lists (map union_members (tp # args)))"
proof (induction args arbitrary: tp)
  case Nil
  then show ?case by (simp add: types_of_wf concat_map_singleton)
next
  case (Cons a rest)
  then have "unpack_signatures a rest = Inr (product_lists (map union_members (a # rest)))"
    by simp
  with Cons.prems show ?case by (simp add: types_of_wf)
qed

lemma distinct_union_members: "wf_spec a \<Longrightarrow> distinct (union_members a)"
  by (cases a) (simp_all add: wf_spec_def union_members_def)

lemma unpack_signatures_nonempty:
  assumes "\<forall>a \<in> set (tp # args). wf_spec a"
  shows "\<exists>sigs. unpack_signatures tp args = Inr sigs
     \<and> sigs = product_lists (map union_members (tp # args))
     \<and> length sigs = prod_list (map (\<lambda>a. length (union_members a)) (tp # args))
     \<and> distinct sigs
     \<and> (\<forall>s \<in> set sigs. length s = length (tp # args))
     \<and> set sigs = {s. length s = length (tp # args)
                      \<and> (\<forall>i < length s. s ! i \<in> set (union_members ((tp # args) ! i)))}"
proof -
  let ?xss = "map union_members (tp # args)"
  have len: "length (product_lists xss) = prod_list (map length xss)" for xss :: "'a list list"
    by (induction xss) (simp_all add: length_concat comp_def sum_list_triv)
  have d: "distinct (product_lists ?xss)"
    using assms by (intro distinct_product_lists) (auto simp: distinct_union_members)
  have s': "set (product_lists (map union_members specs)) = {s. length s = length specs
                      \<and> (\<forall>i < length s. s ! i \<in> set (union_members (specs ! i)))}"
    for specs :: "'a annotation list"
    unfolding product_lists_set by (auto simp: list_all2_conv_all_nth)
  have s: "set (product_lists ?xss) = {s. length s = length (tp # args)
                      \<and> (\<forall>i < length s. s ! i \<in> set (union_members ((tp # args) ! i)))}"
    by (rule s')
  have l: "\<forall>s \<in> set (product_lists ?xss). length s = length (tp # args)"
    using s by auto
  show ?thesis
    using unpack_signatures_product[OF assms] d s l len[of ?xss]
    by (simp add: comp_def)
qed

text \<open>
  Claim C5, as stated, covers every list of specifications, the empty one too, for which
  it gives the empty product: one signature of arity 0. \<open>unpack_signatures(tp, *args)\<close>
  needs one specification at least; the call \<open>unpack_signatures(*[])\<close>, which
  \<open>get_signatures\<close> makes for a function without parameters, raises.
\<close>

theorem unpack_signatures_empty_counterexample:
  "unpack_signatures_star ([] :: pyclass annotation list) = Inl MissingArgument
   \<and> get_signatures PyObject foo_nullary = Inl MissingArgument
   \<and> product_lists (map union_members ([] :: pyclass annotation list)) = [[]]
   \<and> prod_list (map (\<lambda>a. length (union_members a)) ([] :: pyclass annotation list)) = 1"
  by (simp add: unpack_signatures_star_def get_signatures_def foo_nullary_def)

text \<open>
  Claim C5, amended. For a list of \<open>n \<ge> 1\<close> well-formed specifications with
  \<open>k1, ..., kn\<close> members, union expansion returns the Cartesian product of the member
  lists: \<open>k1 * ... * kn\<close> signatures, pairwise different, each of arity \<open>n\<close>, exactly the
  tuples that take one member per position; the list is \<open>product_lists\<close> of the member
  lists, that is, the members of the first position in declared order, and for each of
  them the expansion of the remaining positions in its own order. The result is a
  function of the specifications alone. For the empty list the expansion raises.
\<close>

theorem unpack_signatures_cartesian:
  "unpack_signatures_star ([] :: 'ty annotation list) = Inl MissingArgument
   \<and> (specs \<noteq> [] \<and> (\<forall>a \<in> set specs. wf_spec a) \<longrightarrow>
        (\<exists>sigs. unpack_signatures_star specs = Inr sigs
           \<and> sigs = product_lists (map union_members specs)
           \<and> length sigs = prod_list (map (\<lambda>a. length (union_members a)) specs)
           \<and> distinct sigs
           \<and> (\<forall>s \<in> set sigs. length s = length specs)
           \<and> set sigs = {s. length s = length specs
                            \<and> (\<forall>i < length s. s ! i \<in> set (union_members (specs ! i)))}))"
proof (intro conjI impI)
  show "unpack_signatures_star ([] :: 'ty annotation list) = Inl MissingArgument"
    by (simp add: unpack_signatures_star_def)
next
  assume a: "specs \<noteq> [] \<and> (\<forall>a \<in> set specs. wf_spec a)"
  then obtain tp args where specs: "specs = tp # args"
    by (cases specs) auto
  with a have wf: "\<forall>a \<in> set (tp # args). wf_spec a" by simp
  have star: "unpack_signatures_star (tp # args) = unpack_signatures tp args"
    by (simp add: unpack_signatures_star_def)
  show "\<exists>sigs. unpack_signatures_star specs = Inr sigs
           \<and> sigs = product_lists (map union_members specs)
           \<and> length sigs = prod_list (map (\<lambda>a. length (union_members a)) specs)
           \<and> distinct sigs
           \<and> (\<forall>s \<in> set sigs. length s = length specs)
           \<and> set sigs = {s. length s = length specs
                            \<and> (\<forall>i < length s. s ! i \<in> set (union_members (specs ! i)))}"
    using unpack_signatures_nonempty[OF wf] unfolding specs star .
qed

theorem unpack_signatures_cartesian_witness:
  "unpack_signatures_star [UnionOf [PyInt, PyStr], Class PyBool, UnionOf [PyObject, PyStr]]
     = Inr [[PyInt, PyBool, PyObject], [PyInt, PyBool, PyStr],
            [PyStr, PyBool, PyObject], [PyStr, PyBool, PyStr]]
   \<and> unpack_signatures_star ([] :: pyclass annotation list) = Inl MissingArgument"
  using unpack_signatures_cartesian
          [of "[UnionOf [PyInt, PyStr], Class PyBool, UnionOf [PyObject, PyStr]]"]
  by (simp add: wf_spec_def union_members_def unpack_signatures_star_def)

subsection \<open>The docstring example\<close>

lemma init_table1: "init issubclass_py PyObject foo_object_object = Inr table1"
  by (simp add: init_def register_def get_signatures_def unpack_signatures_star_def
      param_type_def types_of_def add_items_def dict_of_def new_dispatch_def
      foo_object_object_def table1_def Signature_eq_def)

lemma register_table2: "register issubclass_py PyObject table1 foo_str_int = (Inr (), table2)"
  by (simp add: register_def get_signatures_def unpack_signatures_star_def
      param_type_def types_of_def add_items_def dict_of_def
      foo_object_object_def foo_str_int_def table1_def table2_def
      Signature_eq_def Signature_lt_def supercedes_def)

lemma register_table3: "register issubclass_py PyObject table2 foo_str_str = (Inr (), table3)"
  by (simp add: register_def get_signatures_def unpack_signatures_star_def
      param_type_def types_of_def add_items_def dict_of_def
      foo_object_object_def foo_str_int_def foo_str_str_def table2_def table3_def
      Signature_eq_def Signature_lt_def supercedes_def)

lemma register_table4: "register issubclass_py PyObject table3 foo_int_union = (Inr (), table4)"
  by (simp add: register_def get_signatures_def unpack_signatures_star_def
      param_type_def types_of_def add_items_def dict_of_def
      foo_object_object_def foo_str_int_def foo_str_str_def foo_int_union_def table3_def table4_def
      Signature_eq_def Signature_lt_def supercedes_def)

lemma call_table4: "call issubclass_py table4 [PyStr, PyInt] = (Inr foo_str_int, table4)"
  by (simp add: call_def table4_def)

text \<open>
  Claim C8. A dispatcher built from \<open>foo(a: object, b: object)\<close>, with
  \<open>foo(a: str, b: int)\<close>, \<open>foo(a: str, b: str)\<close> and \<open>foo(a: int, b: Union[int, str])\<close>
  registered in this order, resolves a call with a \<open>str\<close> and an \<open>int\<close> to the function
  registered for \<open>(str, int)\<close>. Every registration succeeds and gives the table shown.
\<close>

theorem resolve_str_int_example:
  "init issubclass_py PyObject foo_object_object = Inr table1
   \<and> register issubclass_py PyObject table1 foo_str_int = (Inr (), table2)
   \<and> register issubclass_py PyObject table2 foo_str_str = (Inr (), table3)
   \<and> register issubclass_py PyObject table3 foo_int_union = (Inr (), table4)
   \<and> call issubclass_py table4 [PyStr, PyInt] = (Inr foo_str_int, table4)"
  by (simp only: init_table1 register_table2 register_table3 register_table4 call_table4)


subsection \<open>Resolution\<close>

lemma loop_test_matches:
  "(length signature = length args \<and> list_all (\<lambda>(a, t). issubclass a t) (zip args signature))
     = matches issubclass args signature"
  by (auto simp: matches_def list_all_length)

lemma call_loop_step:
  "call_loop issubclass ((signature, fn) # rest) args =
     (if matches issubclass args signature then Some fn else call_loop issubclass rest args)"
  using loop_test_matches[of signature args issubclass] by auto

lemma call_loop_None:
  "(\<forall>e \<in> set its. \<not> matches issubclass args (fst e)) \<Longrightarrow> call_loop issubclass its args = None"
proof (induction its)
  case Nil
  then show ?case by simp
next
  case (Cons e its)
  then show ?case by (cases e) (simp add: call_loop_step del: call_loop.simps)
qed

lemma call_loop_append:
  "(\<forall>e \<in> set pre. \<not> matches issubclass args (fst e)) \<Longrightarrow>
   call_loop issubclass (pre @ its) args = call_loop issubclass its args"
proof (induction pre)
  case Nil
  then show ?case by simp
next
  case (Cons e pre)
  then show ?case by (cases e) (simp add: call_loop_step del: call_loop.simps)
qed

lemma call_loop_first:
  assumes i: "i < length its"
    and m: "matches issubclass args (fst (its ! i))"
    and first: "\<forall>j < i. \<not> matches issubclass args (fst (its ! j))"
  shows "call_loop issubclass its args = Some (snd (its ! i))"
proof -
  have split: "its = take i its @ (its ! i) # drop (Suc i) its"
    using i by (rule id_take_nth_drop)
  have pre: "\<forall>e \<in> set (take i its). \<not> matches issubclass args (fst e)"
  proof
    fix e assume "e \<in> set (take i its)"
    then obtain j where "j < i" "e = its ! j"
      using i by (auto simp: in_set_conv_nth)
    with first show "\<not> matches issubclass args (fst e)" by simp
  qed
  have "call_loop issubclass its args
          = call_loop issubclass ((its ! i) # drop (Suc i) its) args"
    using call_loop_append[OF pre, of "(its ! i) # drop (Suc i) its"] split by simp
  also have "\<dots> = Some (snd (its ! i))"
    using m by (cases "its ! i") (simp add: call_loop_step del: call_loop.simps)
  finally show ?thesis .
qed


text \<open>
  Claim C1. \<open>__call__\<close> returns the function of the first entry, in the stored order of
  the table, whose signature matches the runtime types of the arguments; when no entry
  matches it raises the \<open>TypeError\<close> that carries the arguments. In both cases the
  dispatcher is the one it was called on.
\<close>

theorem call_first_match:
  "(\<forall>i. i < length (signature_map self)
        \<and> matches issubclass argTypes (fst (signature_map self ! i))
        \<and> (\<forall>j < i. \<not> matches issubclass argTypes (fst (signature_map self ! j)))
      \<longrightarrow> call issubclass self argTypes = (Inr (snd (signature_map self ! i)), self))
   \<and> ((\<forall>i < length (signature_map self). \<not> matches issubclass argTypes (fst (signature_map self ! i)))
      \<longrightarrow> call issubclass self argTypes = (Inl (NoImplementations argTypes), self))"
proof (intro conjI allI impI)
  fix i
  assume "i < length (signature_map self)
        \<and> matches issubclass argTypes (fst (signature_map self ! i))
        \<and> (\<forall>j < i. \<not> matches issubclass argTypes (fst (signature_map self ! j)))"
  then have "call_loop issubclass (signature_map self) argTypes = Some (snd (signature_map self ! i))"
    by (intro call_loop_first) simp_all
  then show "call issubclass self argTypes = (Inr (snd (signature_map self ! i)), self)"
    by (simp add: call_def)
next
  assume "\<forall>i < length (signature_map self). \<not> matches issubclass argTypes (fst (signature_map self ! i))"
  then have "\<forall>e \<in> set (signature_map self). \<not> matches issubclass argTypes (fst e)"
    by (metis in_set_conv_nth)
  then have "call_loop issubclass (signature_map self) argTypes = None"
    by (rule call_loop_None)
  then show "call issubclass self argTypes = (Inl (NoImplementations argTypes), self)"
    by (simp add: call_def)
qed

theorem call_first_match_witness:
  "call issubclass_py table4 [PyInt, PyStr] = (Inr foo_int_union, table4)
   \<and> call issubclass_py table4 [PyInt] = (Inl (NoImplementations [PyInt]), table4)"
  using call_first_match [of table4 issubclass_py "[PyInt, PyStr]"]
        call_first_match [of table4 issubclass_py "[PyInt]"]
  by (simp add: call_def table4_def)


subsection \<open>Conflicts\<close>

lemma dict_get_None: "dict_get d k = None \<longleftrightarrow> k \<notin> fst ` set d"
  by (induction d) (force simp: Signature_eq_iff split: if_splits)+

lemma dict_get_Some: "dict_get d k = Some v \<Longrightarrow> (k, v) \<in> set d"
  by (induction d) (auto simp: Signature_eq_iff split: if_splits)

lemma find_registered_fresh:
  "\<forall>s \<in> set sigs. s \<notin> fst ` set d \<Longrightarrow> find_registered d sigs = None"
proof (induction sigs)
  case Nil
  then show ?case by simp
next
  case (Cons s sigs)
  then have "dict_get d s = None" using dict_get_None[of d s] by simp
  with Cons show ?case by simp
qed

lemma all_truthy_dict_get:
  "all_truthy d \<Longrightarrow> dict_get d s = Some r \<Longrightarrow> fn_truthy r"
  using dict_get_Some[of d s r] by (auto simp: all_truthy_def list_all_iff)

lemma find_registered_None_truthy:
  "all_truthy d \<Longrightarrow> find_registered d sigs = None \<Longrightarrow> \<forall>s \<in> set sigs. s \<notin> fst ` set d"
proof (induction sigs)
  case Nil
  then show ?case by simp
next
  case (Cons s sigs)
  show ?case
  proof (cases "dict_get d s")
    case None
    then have "s \<notin> fst ` set d" using dict_get_None[of d s] by simp
    moreover have "find_registered d sigs = None" using Cons.prems(2) None by simp
    ultimately show ?thesis using Cons by simp
  next
    case (Some r)
    then have "fn_truthy r" using Cons.prems(1) by (rule all_truthy_dict_get[rotated])
    with Some Cons.prems(2) show ?thesis by simp
  qed
qed

lemma find_registered_Some:
  "find_registered d sigs = Some r \<Longrightarrow> \<exists>s \<in> set sigs. (s, r) \<in> set d \<and> fn_truthy r"
proof (induction sigs)
  case Nil
  then show ?case by simp
next
  case (Cons s sigs)
  show ?case
  proof (cases "dict_get d s")
    case None
    with Cons show ?thesis by simp
  next
    case (Some r')
    show ?thesis
    proof (cases "fn_truthy r'")
      case True
      with Some Cons.prems have "r' = r" by simp
      with Some True show ?thesis by (auto dest: dict_get_Some)
    next
      case False
      with Some Cons show ?thesis by simp
    qed
  qed
qed

text \<open>
  Where a signature of the batch is held by a callable that is true, \<open>register\<close> raises
  the \<open>TypeError\<close> naming that callable and the new one, and the dispatcher is unchanged.
\<close>

lemma register_conflict_truthy:
  assumes "get_signatures object fn = Inr sigs"
    and "all_truthy (signature_map self)"
    and "\<exists>s \<in> set sigs. s \<in> fst ` set (signature_map self)"
  shows "\<exists>registered.
           register issubclass object self fn = (Inl (MultipleDefinitions registered fn), self)
           \<and> (\<exists>s \<in> set sigs. (s, registered) \<in> set (signature_map self))"
proof -
  from assms(2,3) have "find_registered (signature_map self) sigs \<noteq> None"
    using find_registered_None_truthy by blast
  then obtain r where r: "find_registered (signature_map self) sigs = Some r"
    by auto
  then have "\<exists>s \<in> set sigs. (s, r) \<in> set (signature_map self)"
    using find_registered_Some by blast
  with r assms(1) show ?thesis
    by (simp add: register_def)
qed

lemma init_handler1: "init issubclass_py PyObject empty_handler = Inr handler1"
  by (simp add: init_def register_def get_signatures_def unpack_signatures_star_def
      param_type_def types_of_def add_items_def dict_of_def new_dispatch_def
      empty_handler_def handler1_def)

text \<open>
  Claim C2 asks every registration that meets a signature of the table to fail and to
  leave the table as it was. \<open>register\<close> tests the truth value of the callable it finds,
  not its presence: a dispatcher built from the false callable \<open>Handler\<close> holds it under
  \<open>(object,)\<close>; registering \<open>foo(a)\<close>, whose only signature is \<open>(object,)\<close> too, raises
  nothing, and \<open>dict(items)\<close> puts \<open>foo\<close> in the place of \<open>Handler\<close>.
\<close>

theorem register_conflict_missed:
  "init issubclass_py PyObject empty_handler = Inr handler1
   \<and> get_signatures PyObject foo_any = Inr [[PyObject]]
   \<and> dict_get (signature_map handler1) [PyObject] = Some empty_handler
   \<and> register issubclass_py PyObject handler1 foo_any = (Inr (), handler2)
   \<and> signature_map handler2 = [([PyObject], foo_any)]"
  by (simp add: init_handler1)
     (simp add: register_def get_signatures_def unpack_signatures_star_def
      param_type_def types_of_def add_items_def dict_of_def
      empty_handler_def foo_any_def handler1_def handler2_def
      Signature_eq_def Signature_lt_def supercedes_def)

subsection \<open>Arity and positions of the expanded signatures\<close>

lemma types_of_Inr: "types_of a = Inr ts \<Longrightarrow> ts = union_members a"
  by (cases a) (auto simp: types_of_def union_members_def)

lemma unpack_signatures_elem:
  "unpack_signatures tp args = Inr sigs \<Longrightarrow> s \<in> set sigs \<Longrightarrow>
   length s = Suc (length args) \<and> (\<forall>i \<le> length args. s ! i \<in> set (union_members ((tp # args) ! i)))"
proof (induction args arbitrary: tp sigs s)
  case Nil
  then show ?case
    by (auto split: sum.splits dest!: types_of_Inr)
next
  case (Cons a rest)
  from Cons.prems obtain types where types: "types_of tp = Inr types"
    by (auto split: sum.splits)
  with Cons.prems have ne: "types \<noteq> []"
    by (auto split: if_splits)
  with Cons.prems types obtain sigs' where
    sigs': "unpack_signatures a rest = Inr sigs'"
    and sigs: "sigs = concat (map (\<lambda>t. map (\<lambda>sig. t # sig) sigs') types)"
    by (auto split: sum.splits)
  from Cons.prems(2) sigs obtain t s' where
    t: "t \<in> set types" and s': "s' \<in> set sigs'" and s: "s = t # s'"
    by auto
  have IH: "length s' = Suc (length rest)
      \<and> (\<forall>i \<le> length rest. s' ! i \<in> set (union_members ((a # rest) ! i)))"
    using Cons.IH[OF sigs' s'] .
  have t': "t \<in> set (union_members tp)"
    using t types_of_Inr[OF types] by simp
  show ?case
  proof (intro conjI allI impI)
    show "length s = Suc (length (a # rest))" using IH s by simp
  next
    fix i assume "i \<le> length (a # rest)"
    then show "s ! i \<in> set (union_members ((tp # a # rest) ! i))"
      using IH t' s by (cases i) simp_all
  qed
qed



lemma get_signatures_zero: "fn_params fn = [] \<Longrightarrow> get_signatures object fn = Inl MissingArgument"
  by (simp add: get_signatures_def unpack_signatures_star_def)

subsection \<open>The keys of the table after a registration\<close>

lemma set_insert_item: "set (insert_item issubclass new its) = insert new (set its)"
  by (induction its) auto

lemma set_foldl_insert_item:
  "set (foldl (\<lambda>its new. insert_item issubclass new its) its news) = set its \<union> set news"
  by (induction news arbitrary: its) (auto simp: set_insert_item)

lemma keys_dict_setitem:
  "map fst (dict_setitem d k v) = (if k \<in> set (map fst d) then map fst d else map fst d @ [k])"
  by (induction d) (force simp: Signature_eq_iff)+

lemma keys_foldl_dict_setitem:
  "map fst (foldl (\<lambda>d (k, v). dict_setitem d k v) [] its) = rev (remdups (rev (map fst its)))"
proof (induction its rule: rev_induct)
  case Nil
  then show ?case by simp
next
  case (snoc kv its)
  then show ?case
    by (cases kv) (simp add: keys_dict_setitem)
qed

lemma keys_dict_of: "map fst (dict_of its) = rev (remdups (rev (map fst its)))"
  by (simp add: dict_of_def keys_foldl_dict_setitem)

lemma set_keys_dict_of: "set (map fst (dict_of its)) = set (map fst its)"
  by (simp add: keys_dict_of)

lemma distinct_keys_dict_of: "distinct (map fst (dict_of its))"
  by (simp add: keys_dict_of)

lemma table_keys_add_items:
  "table_keys (add_items issubclass self news)
     = rev (remdups (rev (map fst
         (foldl (\<lambda>its new. insert_item issubclass new its) (signature_map self) news))))"
  by (simp add: table_keys_def add_items_def keys_dict_of)

lemma set_table_keys_add_items:
  "set (table_keys (add_items issubclass self news)) = set (table_keys self) \<union> fst ` set news"
proof -
  have "set (table_keys (add_items issubclass self news))
          = fst ` set (foldl (\<lambda>its new. insert_item issubclass new its) (signature_map self) news)"
    by (simp only: table_keys_add_items set_rev set_remdups set_map)
  then show ?thesis
    by (simp add: set_foldl_insert_item table_keys_def image_Un)
qed

lemma register_cases:
  obtains (failed) e where "register issubclass object self fn = (Inl e, self)"
  | (stored) sigs where "get_signatures object fn = Inr sigs"
      "find_registered (signature_map self) sigs = None"
      "register issubclass object self fn =
         (Inr (), add_items issubclass self (map (\<lambda>signature. (signature, fn)) sigs))"
proof (cases "get_signatures object fn")
  case (Inl e)
  then show ?thesis using failed by (simp add: register_def)
next
  case (Inr sigs)
  show ?thesis
  proof (cases "find_registered (signature_map self) sigs")
    case None
    with Inr show ?thesis using stored by (simp add: register_def)
  next
    case (Some r)
    with Inr show ?thesis using failed by (simp add: register_def)
  qed
qed





lemma register_keys_arity:
  assumes "\<forall>sig \<in> set (table_keys self). 1 \<le> length sig"
  shows "\<forall>sig \<in> set (table_keys (snd (register issubclass object self fn))). 1 \<le> length sig"
proof (cases rule: register_cases[of issubclass object self fn])
  case (failed e)
  with assms show ?thesis by simp
next
  case (stored sigs)
  have "\<forall>s \<in> set sigs. 1 \<le> length s"
    using unpack_signatures_elem stored(1)
    by (fastforce simp: get_signatures_def unpack_signatures_star_def split: list.splits)
  with assms stored(3) show ?thesis
    by (auto simp: set_table_keys_add_items)
qed

lemma register_all_keys_arity:
  "\<forall>sig \<in> set (table_keys self). 1 \<le> length sig \<Longrightarrow>
   \<forall>sig \<in> set (table_keys (register_all issubclass object self fns)). 1 \<le> length sig"
proof (induction fns arbitrary: self)
  case Nil
  then show ?case by simp
next
  case (Cons fn fns)
  show ?case
    using Cons.IH[OF register_keys_arity[OF Cons.prems]] by simp
qed

text \<open>
  Claim C10. A function without parameters cannot be registered: \<open>get_signatures\<close> calls
  \<open>unpack_signatures\<close> without its required argument, so both \<open>__init__\<close> and \<open>register\<close>
  raise before the table is touched. Every key of a table reached from the empty one by
  registrations, failed ones included, has arity at least 1.
\<close>

theorem zero_parameters_rejected:
  "(fn_params fn = [] \<longrightarrow>
      init issubclass object fn = Inl MissingArgument
      \<and> register issubclass object self fn = (Inl MissingArgument, self))
   \<and> (\<forall>sig \<in> set (table_keys (register_all issubclass object new_dispatch fns)). 1 \<le> length sig)"
proof -
  have "\<forall>sig \<in> set (table_keys (new_dispatch :: 'a multipledispatch)). 1 \<le> length sig"
    by (simp add: table_keys_def new_dispatch_def)
  then have "\<forall>sig \<in> set (table_keys (register_all issubclass object new_dispatch fns)). 1 \<le> length sig"
    by (rule register_all_keys_arity)
  then show ?thesis
    by (simp add: init_def register_def get_signatures_zero)
qed


theorem zero_parameters_rejected_witness:
  "init issubclass_py PyObject foo_nullary = Inl MissingArgument
   \<and> register issubclass_py PyObject table4 foo_nullary = (Inl MissingArgument, table4)
   \<and> table_keys (register_all issubclass_py PyObject new_dispatch [foo_nullary, foo_object_object])
       = [[PyObject, PyObject]]"
  using zero_parameters_rejected
          [of foo_nullary issubclass_py PyObject table4 "[foo_nullary, foo_object_object]"]
  by (simp add: foo_nullary_def foo_object_object_def table_keys_def register_def
      get_signatures_def unpack_signatures_star_def param_type_def types_of_def
      add_items_def dict_of_def new_dispatch_def)

subsection \<open>Parameters without a type\<close>







subsection \<open>Insertion keeps the table linearized\<close>

lemma insert_item_takeWhile:
  "insert_item issubclass new its =
     takeWhile (\<lambda>item. \<not> Signature_lt issubclass (fst new) (fst item)) its
     @ new # dropWhile (\<lambda>item. \<not> Signature_lt issubclass (fst new) (fst item)) its"
  by (induction its) simp_all

lemma dict_setitem_fresh: "k \<notin> set (map fst d) \<Longrightarrow> dict_setitem d k v = d @ [(k, v)]"
  by (induction d) (auto simp: Signature_eq_iff)

lemma foldl_dict_setitem_distinct:
  "distinct (map fst (acc @ its)) \<Longrightarrow>
   foldl (\<lambda>d (k, v). dict_setitem d k v) acc its = acc @ its"
proof (induction its arbitrary: acc)
  case Nil
  then show ?case by simp
next
  case (Cons kv its)
  obtain k v where kv: "kv = (k, v)" by (cases kv)
  have fresh: "k \<notin> set (map fst acc)"
    using Cons.prems kv by auto
  have "distinct (map fst ((acc @ [(k, v)]) @ its))"
    using Cons.prems kv by simp
  then have "foldl (\<lambda>d (k, v). dict_setitem d k v) (acc @ [(k, v)]) its = (acc @ [(k, v)]) @ its"
    by (rule Cons.IH)
  then show ?case
    using kv fresh by (simp add: dict_setitem_fresh)
qed

lemma dict_of_distinct: "distinct (map fst its) \<Longrightarrow> dict_of its = its"
  using foldl_dict_setitem_distinct[of "[]" its] by (simp add: dict_of_def)

lemma distinct_keys_insert_item:
  "distinct (map fst (insert_item issubclass new its))
     \<longleftrightarrow> fst new \<notin> set (map fst its) \<and> distinct (map fst its)"
  by (induction its) (auto simp: set_insert_item)

lemma distinct_keys_foldl_insert_item:
  "distinct (map fst its) \<Longrightarrow> distinct (map fst news) \<Longrightarrow>
   set (map fst its) \<inter> set (map fst news) = {} \<Longrightarrow>
   distinct (map fst (foldl (\<lambda>its new. insert_item issubclass new its) its news))"
proof (induction news arbitrary: its)
  case Nil
  then show ?case by simp
next
  case (Cons new news)
  have "distinct (map fst (insert_item issubclass new its))"
    using Cons.prems by (simp add: distinct_keys_insert_item)
  moreover have "set (map fst (insert_item issubclass new its)) \<inter> set (map fst news) = {}"
    using Cons.prems by (auto simp: set_insert_item)
  ultimately show ?case
    using Cons.IH[of "insert_item issubclass new its"] Cons.prems by simp
qed

lemma sorted_wrt_remdups: "sorted_wrt P xs \<Longrightarrow> sorted_wrt P (remdups xs)"
  by (induction xs) auto

lemma sorted_wrt_first_occurrences: "sorted_wrt P xs \<Longrightarrow> sorted_wrt P (rev (remdups (rev xs)))"
  by (simp add: sorted_wrt_rev sorted_wrt_remdups)

lemma linear_insert_item:
  assumes tr: "transp issubclass"
    and s: "sorted_wrt (\<lambda>x y. \<not> Signature_lt issubclass y x) (map fst its)"
  shows "sorted_wrt (\<lambda>x y. \<not> Signature_lt issubclass y x) (map fst (insert_item issubclass new its))"
  using s
proof (induction its)
  case Nil
  then show ?case by simp
next
  case (Cons item its)
  show ?case
  proof (cases "Signature_lt issubclass (fst new) (fst item)")
    case True
    have "\<not> Signature_lt issubclass y (fst new)" if "y \<in> set (map fst (item # its))" for y
    proof
      assume y: "Signature_lt issubclass y (fst new)"
      then have "Signature_lt issubclass y (fst item)"
        using True tr by (blast intro: Signature_lt_trans)
      moreover have "y = fst item \<or> \<not> Signature_lt issubclass y (fst item)"
        using that Cons.prems by auto
      ultimately show False
        using y True by (auto dest: Signature_lt_asym simp: Signature_lt_irrefl)
    qed
    with True Cons.prems show ?thesis by simp
  next
    case False
    have "sorted_wrt (\<lambda>x y. \<not> Signature_lt issubclass y x) (map fst (insert_item issubclass new its))"
      using Cons by simp
    moreover have "\<forall>y \<in> set (map fst (insert_item issubclass new its)).
        \<not> Signature_lt issubclass y (fst item)"
      using False Cons.prems by (auto simp: set_insert_item)
    ultimately show ?thesis using False by simp
  qed
qed

lemma linear_foldl_insert_item:
  "transp issubclass \<Longrightarrow>
   sorted_wrt (\<lambda>x y. \<not> Signature_lt issubclass y x) (map fst its) \<Longrightarrow>
   sorted_wrt (\<lambda>x y. \<not> Signature_lt issubclass y x)
     (map fst (foldl (\<lambda>its new. insert_item issubclass new its) its news))"
  by (induction news arbitrary: its) (simp_all add: linear_insert_item)

lemma linear_add_items:
  "transp issubclass \<Longrightarrow>
   sorted_wrt (\<lambda>x y. \<not> Signature_lt issubclass y x) (table_keys self) \<Longrightarrow>
   sorted_wrt (\<lambda>x y. \<not> Signature_lt issubclass y x) (table_keys (add_items issubclass self news))"
  unfolding table_keys_add_items
  by (intro sorted_wrt_first_occurrences linear_foldl_insert_item) (simp_all add: table_keys_def)

lemma linear_register:
  assumes "transp issubclass"
    and "sorted_wrt (\<lambda>x y. \<not> Signature_lt issubclass y x) (table_keys self)"
  shows "sorted_wrt (\<lambda>x y. \<not> Signature_lt issubclass y x)
     (table_keys (snd (register issubclass object self fn)))"
proof (cases rule: register_cases[of issubclass object self fn])
  case (failed e)
  with assms show ?thesis by simp
next
  case (stored sigs)
  with assms show ?thesis by (simp add: linear_add_items)
qed

lemma linear_register_all:
  "transp issubclass \<Longrightarrow>
   sorted_wrt (\<lambda>x y. \<not> Signature_lt issubclass y x) (table_keys self) \<Longrightarrow>
   sorted_wrt (\<lambda>x y. \<not> Signature_lt issubclass y x)
     (table_keys (register_all issubclass object self fns))"
  by (induction fns arbitrary: self) (simp_all add: linear_register)

lemma distinct_register:
  assumes "distinct (table_keys self)"
  shows "distinct (table_keys (snd (register issubclass object self fn)))"
proof (cases rule: register_cases[of issubclass object self fn])
  case (failed e)
  with assms show ?thesis by simp
next
  case (stored sigs)
  then show ?thesis by (simp add: table_keys_add_items)
qed

lemma distinct_register_all:
  "distinct (table_keys self) \<Longrightarrow> distinct (table_keys (register_all issubclass object self fns))"
  by (induction fns arbitrary: self) (simp_all add: distinct_register)

lemma register_stored_items:
  assumes d: "distinct (table_keys self)" and ds: "distinct sigs"
    and g: "get_signatures object fn = Inr sigs"
    and fresh: "\<forall>s \<in> set sigs. s \<notin> set (table_keys self)"
  shows "register issubclass object self fn =
     (Inr (), self\<lparr>signature_map :=
        foldl (\<lambda>its new. insert_item issubclass new its) (signature_map self)
          (map (\<lambda>signature. (signature, fn)) sigs)\<rparr>)"
proof -
  have none: "find_registered (signature_map self) sigs = None"
    using fresh by (intro find_registered_fresh) (simp add: table_keys_def)
  have "distinct (map fst (foldl (\<lambda>its new. insert_item issubclass new its) (signature_map self)
          (map (\<lambda>signature. (signature, fn)) sigs)))"
    using d ds fresh
    by (intro distinct_keys_foldl_insert_item) (auto simp: table_keys_def comp_def)
  then show ?thesis
    using g none by (simp add: register_def add_items_def dict_of_distinct)
qed

lemma init_abc1: "init issubclass_abc AbcObject foo_hashable = Inr abc1"
  by (simp add: init_def register_def get_signatures_def unpack_signatures_star_def
      param_type_def types_of_def add_items_def dict_of_def new_dispatch_def
      foo_hashable_def abc1_def)

lemma register_abc2: "register issubclass_abc AbcObject abc1 foo_list = (Inr (), abc2)"
  by (simp add: register_def get_signatures_def unpack_signatures_star_def
      param_type_def types_of_def add_items_def dict_of_def
      foo_hashable_def foo_list_def abc1_def abc2_def
      Signature_eq_def Signature_lt_def supercedes_def)

lemma register_abc3: "register issubclass_abc AbcObject abc2 foo_sequence = (Inr (), abc3)"
  by (simp add: register_def get_signatures_def unpack_signatures_star_def
      param_type_def types_of_def add_items_def dict_of_def
      foo_hashable_def foo_list_def foo_sequence_def abc2_def abc3_def
      Signature_eq_def Signature_lt_def supercedes_def)

text \<open>
  Claim C3. After every sequence of successful registrations the keys of the table are
  to be a linearization of \<open>Signature.__lt__\<close>, which the source states as the invariant of
  \<open>signature_map\<close> (keys in ascending order). The code breaks it: after \<open>foo(a: Hashable)\<close>,
  \<open>foo(a: list)\<close> and \<open>foo(a: Sequence)\<close> the table is \<open>(Sequence,)\<close>, \<open>(Hashable,)\<close>,
  \<open>(list,)\<close>. \<open>(Sequence,)\<close> went before \<open>(Hashable,)\<close>, the first entry it is less than, and
  \<open>(list,)\<close>, which is less than \<open>(Sequence,)\<close> but not less than \<open>(Hashable,)\<close>, now stands
  behind it. A call with a \<open>list\<close> goes to the function for \<open>Sequence\<close>.
\<close>

theorem table_not_linearized_counterexample:
  "init issubclass_abc AbcObject foo_hashable = Inr abc1
   \<and> register issubclass_abc AbcObject abc1 foo_list = (Inr (), abc2)
   \<and> register issubclass_abc AbcObject abc2 foo_sequence = (Inr (), abc3)
   \<and> table_keys abc3 = [[AbcSequence], [AbcHashable], [AbcList]]
   \<and> Signature_lt issubclass_abc (table_keys abc3 ! 2) (table_keys abc3 ! 0)
   \<and> call issubclass_abc abc3 [AbcList] = (Inr foo_sequence, abc3)"
  by (simp add: init_abc1 register_abc2 register_abc3)
     (simp add: table_keys_def abc3_def Signature_lt_def supercedes_def call_def)

text \<open>
  What the insertion of \<open>_add_items\<close> does keep. Where the host's \<open>issubclass\<close> is
  transitive, the keys of every table reached from the empty one by registrations are a
  linearization of \<open>Signature.__lt__\<close>. For every \<open>issubclass\<close>, no key stands twice, each
  new item goes right before the first item whose signature it is strictly less than, or
  to the end, and a registration of pairwise different signatures that are new to the
  table stores exactly the result of these insertions.
\<close>

lemma table_linearized:
  "(transp issubclass \<longrightarrow>
      (\<forall>i j. i < length (table_keys (register_all issubclass object new_dispatch fns))
            \<and> j < length (table_keys (register_all issubclass object new_dispatch fns))
            \<and> Signature_lt issubclass
                 (table_keys (register_all issubclass object new_dispatch fns) ! i)
                 (table_keys (register_all issubclass object new_dispatch fns) ! j)
          \<longrightarrow> i < j))
     \<and> distinct (table_keys (register_all issubclass object new_dispatch fns))
     \<and> insert_item issubclass new its =
         takeWhile (\<lambda>item. \<not> Signature_lt issubclass (fst new) (fst item)) its
         @ new # dropWhile (\<lambda>item. \<not> Signature_lt issubclass (fst new) (fst item)) its
     \<and> (distinct (table_keys self) \<and> distinct sigs \<and> get_signatures object fn = Inr sigs
          \<and> (\<forall>s \<in> set sigs. s \<notin> set (table_keys self))
        \<longrightarrow> register issubclass object self fn =
             (Inr (), self\<lparr>signature_map :=
                foldl (\<lambda>its new. insert_item issubclass new its) (signature_map self)
                  (map (\<lambda>signature. (signature, fn)) sigs)\<rparr>))"
proof (intro conjI allI impI)
  let ?ks = "table_keys (register_all issubclass object new_dispatch fns)"
  assume tr: "transp issubclass"
  have "sorted_wrt (\<lambda>x y. \<not> Signature_lt issubclass y x) (table_keys (new_dispatch :: 'a multipledispatch))"
    by (simp add: table_keys_def new_dispatch_def)
  then have sorted: "sorted_wrt (\<lambda>x y. \<not> Signature_lt issubclass y x) ?ks"
    using tr by (intro linear_register_all)
  fix i j
  assume a: "i < length ?ks \<and> j < length ?ks \<and> Signature_lt issubclass (?ks ! i) (?ks ! j)"
  show "i < j"
  proof (rule ccontr)
    assume "\<not> i < j"
    then consider "i = j" | "j < i" by linarith
    then show False
    proof cases
      case 1
      with a show False by (simp add: Signature_lt_irrefl)
    next
      case 2
      then have "\<not> Signature_lt issubclass (?ks ! i) (?ks ! j)"
        using sorted_wrt_nth_less[OF sorted 2] a by simp
      with a show False by simp
    qed
  qed
next
  have "distinct (table_keys (new_dispatch :: 'a multipledispatch))"
    by (simp add: table_keys_def new_dispatch_def)
  then show "distinct (table_keys (register_all issubclass object new_dispatch fns))"
    by (rule distinct_register_all)
next
  show "insert_item issubclass new its =
         takeWhile (\<lambda>item. \<not> Signature_lt issubclass (fst new) (fst item)) its
         @ new # dropWhile (\<lambda>item. \<not> Signature_lt issubclass (fst new) (fst item)) its"
    by (rule insert_item_takeWhile)
next
  assume "distinct (table_keys self) \<and> distinct sigs \<and> get_signatures object fn = Inr sigs
          \<and> (\<forall>s \<in> set sigs. s \<notin> set (table_keys self))"
  then show "register issubclass object self fn =
             (Inr (), self\<lparr>signature_map :=
                foldl (\<lambda>its new. insert_item issubclass new its) (signature_map self)
                  (map (\<lambda>signature. (signature, fn)) sigs)\<rparr>)"
    by (intro register_stored_items) simp_all
qed


lemma table_linearized_example:
  "transp issubclass_py
   \<and> table_keys (register_all issubclass_py PyObject new_dispatch
        [foo_object_object, foo_str_int, foo_bool_or_str_int, foo_int_union])
       = [[PyStr, PyInt], [PyInt, PyInt], [PyInt, PyStr], [PyObject, PyObject]]
   \<and> Signature_lt issubclass_py [PyInt, PyStr] [PyObject, PyObject]
   \<and> insert_item issubclass_py ([PyInt, PyStr], foo_int_union) (signature_map table2)
       = [([PyStr, PyInt], foo_str_int), ([PyInt, PyStr], foo_int_union),
          ([PyObject, PyObject], foo_object_object)]"
proof -
  have keys: "table_keys (register_all issubclass_py PyObject new_dispatch
        [foo_object_object, foo_str_int, foo_bool_or_str_int, foo_int_union])
       = [[PyStr, PyInt], [PyInt, PyInt], [PyInt, PyStr], [PyObject, PyObject]]"
    by (simp add: table_keys_def register_def get_signatures_def unpack_signatures_star_def
        param_type_def types_of_def add_items_def dict_of_def new_dispatch_def
        foo_object_object_def foo_str_int_def foo_bool_or_str_int_def foo_int_union_def
        Signature_eq_def Signature_lt_def supercedes_def)
  have lt: "Signature_lt issubclass_py [PyInt, PyStr] [PyObject, PyObject]"
    by (simp add: Signature_lt_def supercedes_def)
  from table_linearized [of issubclass_py PyObject
      "[foo_object_object, foo_str_int, foo_bool_or_str_int, foo_int_union]"
      "([PyInt, PyStr], foo_int_union)" "signature_map table2" table1 "[[PyStr, PyInt]]" foo_str_int]
  have "insert_item issubclass_py ([PyInt, PyStr], foo_int_union) (signature_map table2)
       = [([PyStr, PyInt], foo_str_int), ([PyInt, PyStr], foo_int_union),
          ([PyObject, PyObject], foo_object_object)]"
    by (simp add: table2_def Signature_lt_def supercedes_def)
  with keys lt transp_issubclass_py show ?thesis by simp
qed

subsection \<open>Incomparable signatures\<close>

























end
